theory Spec2Isabelle
  imports Complex_Main
begin

section \<open>Values, exceptions and events\<close>

text \<open>
  The program is \<^verbatim>\<open>stockapp.py\<close>. Its numbers are IEEE doubles held in pandas Series and
  numpy arrays. They are modelled as real numbers; the one special value the program
  depends on, NaN (which \<^verbatim>\<open>dropna\<close> removes and \<^verbatim>\<open>diff\<close> and \<^verbatim>\<open>rolling\<close> create), is
  \<open>None\<close>. Rounding, overflow and signed zeros are outside the model.
\<close>

type_synonym series = "real option list"

datatype exn = ValueError | IndexError | FileNotFoundError | OtherException

text \<open>The titles of the message boxes of the program, in the order of the source.\<close>

datatype title =
    Input_Error
  | Data_Fetch_Error
  | RSI_Calculation_Error
  | MACD_Calculation_Error
  | Indicator_Error
  | Insufficient_Data
  | File_Error
  | Loading_Error
  | Prediction_Error

text \<open>
  What a run does to the outside: the message boxes it shows and the calls to the
  external collaborators (market data, model file, scaler file, scaler, classifier).
\<close>

datatype event =
    ShowError title
  | ShowWarning title
  | YfDownload
  | LoadModel
  | LoadScaler
  | ScalerTransform
  | ModelPredict

section \<open>The decision (lines 114 to 124 of \<^verbatim>\<open>predict_stock_trend\<close>)\<close>

text \<open>\<^verbatim>\<open>PERCENTAGE_MOVES\<close>, the dictionary of lines 11 to 23.\<close>

definition PERCENTAGE_MOVES :: "nat \<rightharpoonup> string" where
  "PERCENTAGE_MOVES = map_of
     [(0, ''Neutral''), (1, ''+3%''), (2, ''+7%''), (3, ''+10%''), (4, ''+15%''),
      (5, ''+30%''), (6, ''-3%''), (7, ''-7%''), (8, ''-10%''), (9, ''-15%''),
      (10, ''-30%'')]"

text \<open>
  \<^verbatim>\<open>np.argmax\<close>: a scan from the left that keeps the index of the greatest value seen so
  far and replaces it only by a strictly greater one; an empty array raises ValueError.
\<close>

fun argmax_loop :: "real list \<Rightarrow> nat \<Rightarrow> nat \<Rightarrow> real \<Rightarrow> nat" where
  "argmax_loop [] i bi bv = bi"
| "argmax_loop (x # xs) i bi bv =
     (if bv < x then argmax_loop xs (Suc i) i x else argmax_loop xs (Suc i) bi bv)"

definition argmax :: "real list \<Rightarrow> exn + nat" where
  "argmax xs = (case xs of [] \<Rightarrow> Inl ValueError | x # rest \<Rightarrow> Inr (argmax_loop rest 1 0 x))"

datatype direction = Neutral | Up | Down

text \<open>
  The result the program displays: \<^verbatim>\<open>result_text\<close> is built from the class, the label
  \<^verbatim>\<open>percentage_move\<close>, the direction word and \<^verbatim>\<open>confidence\<close>, and \<^verbatim>\<open>result_color\<close> is the
  colour of the label.
\<close>

record trend_prediction =
  best_class :: nat
  confidence :: real
  percentage_move :: string
  direction :: direction
  result_color :: string

definition map_decision :: "real list \<Rightarrow> exn + trend_prediction" where
  "map_decision prediction =
     (case argmax prediction of
        Inl e \<Rightarrow> Inl e
      | Inr bc \<Rightarrow>
          Inr \<lparr> best_class = bc,
                confidence = prediction ! bc * 100,
                percentage_move =
                  (case PERCENTAGE_MOVES bc of Some s \<Rightarrow> s | None \<Rightarrow> ''Unknown''),
                direction = (if bc = 0 then Neutral else if bc \<le> 5 then Up else Down),
                result_color =
                  (if bc = 0 then ''black'' else if bc \<le> 5 then ''green'' else ''red'') \<rparr>)"

text \<open>The label table as the specification lists it, by position.\<close>

definition label_table :: "string list" where
  "label_table =
     [''Neutral'', ''+3%'', ''+7%'', ''+10%'', ''+15%'', ''+30%'',
      ''-3%'', ''-7%'', ''-10%'', ''-15%'', ''-30%'']"

text \<open>Being the first index at which a list takes its greatest value.\<close>

definition first_max_index :: "real list \<Rightarrow> nat \<Rightarrow> bool" where
  "first_max_index xs k =
     (k < length xs \<and> list_all (\<lambda>x. x \<le> xs ! k) xs \<and> list_all (\<lambda>x. x < xs ! k) (take k xs))"

section \<open>Arithmetic on values that may be NaN\<close>

text \<open>
  An operation with a NaN operand gives NaN. A division by zero gives an infinity or NaN
  in IEEE arithmetic; the model has no infinities and gives \<open>None\<close> there, and the
  properties below that speak of defined entries show that no such division reaches a
  result.
\<close>

definition fadd :: "real option \<Rightarrow> real option \<Rightarrow> real option" where
  "fadd a b = (case (a, b) of (Some x, Some y) \<Rightarrow> Some (x + y) | _ \<Rightarrow> None)"

definition fsub :: "real option \<Rightarrow> real option \<Rightarrow> real option" where
  "fsub a b = (case (a, b) of (Some x, Some y) \<Rightarrow> Some (x - y) | _ \<Rightarrow> None)"

definition fdiv :: "real option \<Rightarrow> real option \<Rightarrow> real option" where
  "fdiv a b =
     (case (a, b) of (Some x, Some y) \<Rightarrow> if y = 0 then None else Some (x / y) | _ \<Rightarrow> None)"

definition fneg :: "real option \<Rightarrow> real option" where
  "fneg a = (case a of Some x \<Rightarrow> Some (- x) | None \<Rightarrow> None)"

text \<open>A comparison with NaN is false.\<close>

definition gt0 :: "real option \<Rightarrow> bool" where
  "gt0 v = (case v of Some x \<Rightarrow> 0 < x | None \<Rightarrow> False)"

definition lt0 :: "real option \<Rightarrow> bool" where
  "lt0 v = (case v of Some x \<Rightarrow> x < 0 | None \<Rightarrow> False)"

definition eq0 :: "real option \<Rightarrow> bool" where
  "eq0 v = (case v of Some x \<Rightarrow> x = 0 | None \<Rightarrow> False)"

section \<open>The pandas and numpy operations the indicators call\<close>

text \<open>\<^verbatim>\<open>Series.diff()\<close>: the first entry is NaN, every other one is the change from the
  entry before.\<close>

definition diff :: "series \<Rightarrow> series" where
  "diff xs = (case xs of [] \<Rightarrow> [] | _ # rest \<Rightarrow> None # map2 (\<lambda>prev cur. fsub cur prev) xs rest)"

text \<open>\<^verbatim>\<open>s.where(cond, other)\<close>: the entry where the condition holds, \<^verbatim>\<open>other\<close> elsewhere.\<close>

definition series_where :: "(real option \<Rightarrow> bool) \<Rightarrow> real \<Rightarrow> series \<Rightarrow> series" where
  "series_where cond other xs = map (\<lambda>v. if cond v then v else Some other) xs"

text \<open>
  \<^verbatim>\<open>s.rolling(window=w).mean()\<close>, with \<^verbatim>\<open>min_periods\<close> at its default, the window: the
  entry at index \<open>i\<close> is the mean of the observations (the entries that are not NaN) among
  the last \<open>w\<close> entries up to \<open>i\<close>, when there are at least \<open>w\<close> of them and at least one,
  and NaN otherwise. A negative window raises ValueError.
\<close>

definition window_mean :: "nat \<Rightarrow> series \<Rightarrow> nat \<Rightarrow> real option" where
  "window_mean w xs i =
     (let obs = List.map_filter id (drop (Suc i - w) (take (Suc i) xs))
      in if w \<le> length obs \<and> 0 < length obs
         then Some (sum_list obs / real (length obs)) else None)"

definition rolling_mean :: "int \<Rightarrow> series \<Rightarrow> exn + series" where
  "rolling_mean window xs =
     (if window < 0 then Inl ValueError
      else Inr (map (window_mean (nat window) xs) [0..<length xs]))"

text \<open>\<^verbatim>\<open>np.where(cond, c, arr)\<close>: the constant where the condition holds, the array's
  entry elsewhere.\<close>

definition np_where :: "bool list \<Rightarrow> real \<Rightarrow> series \<Rightarrow> series" where
  "np_where cond c arr = map2 (\<lambda>b q. if b then Some c else q) cond arr"

text \<open>
  \<^verbatim>\<open>s.ewm(span=n, adjust=False).mean()\<close>, with \<^verbatim>\<open>ignore_na\<close> and \<^verbatim>\<open>min_periods\<close> at their
  defaults. pandas turns the span into a centre of mass \<open>(n - 1) / 2\<close> and a weight
  \<open>1 / (1 + com)\<close>, and refuses a span below 1 with ValueError. Its loop carries the
  running average \<^verbatim>\<open>weighted\<close> and the weight \<^verbatim>\<open>old_wt\<close> of the past: the first
  observation seeds the average; a later observation \<^verbatim>\<open>cur\<close> replaces it by
  \<^verbatim>\<open>(old_wt * weighted + alpha * cur) / (old_wt + alpha)\<close> with \<^verbatim>\<open>old_wt\<close> multiplied by
  \<^verbatim>\<open>1 - alpha\<close> first and reset to 1 afterwards; a NaN leaves the average and lets the
  weight of the past decay. The output is the running average.
\<close>

fun ewm_loop :: "real \<Rightarrow> series \<Rightarrow> real option \<Rightarrow> real \<Rightarrow> series" where
  "ewm_loop alpha [] weighted old_wt = []"
| "ewm_loop alpha (cur # rest) weighted old_wt =
     (case weighted of
        None \<Rightarrow> cur # ewm_loop alpha rest cur old_wt
      | Some w \<Rightarrow>
          (let old_wt' = old_wt * (1 - alpha) in
           case cur of
             None \<Rightarrow> Some w # ewm_loop alpha rest (Some w) old_wt'
           | Some c \<Rightarrow>
               (let w' = (if w \<noteq> c then (old_wt' * w + alpha * c) / (old_wt' + alpha) else w)
                in Some w' # ewm_loop alpha rest (Some w') 1)))"

definition ewm_mean :: "int \<Rightarrow> series \<Rightarrow> exn + series" where
  "ewm_mean spn xs =
     (if spn < 1 then Inl ValueError
      else let com = (real_of_int spn - 1) / 2; alpha = 1 / (1 + com)
           in Inr (case xs of [] \<Rightarrow> [] | x # rest \<Rightarrow> x # ewm_loop alpha rest x 1))"

section \<open>The indicators\<close>

text \<open>
  The \<^verbatim>\<open>try\<close> block of \<^verbatim>\<open>calculate_rsi\<close> (lines 40 to 44): \<^verbatim>\<open>gain\<close> (line 41) and
  \<^verbatim>\<open>loss\<close> (line 42) are the rolling means of the positive and of the negative changes,
  the second one negated.
\<close>

definition rsi_gain :: "series \<Rightarrow> int \<Rightarrow> exn + series" where
  "rsi_gain data window = rolling_mean window (series_where gt0 0 (diff data))"

definition rsi_loss :: "series \<Rightarrow> int \<Rightarrow> exn + series" where
  "rsi_loss data window =
     (case rolling_mean window (series_where lt0 0 (diff data)) of
        Inl e \<Rightarrow> Inl e
      | Inr m \<Rightarrow> Inr (map fneg m))"

definition rsi_body :: "series \<Rightarrow> int \<Rightarrow> exn + series" where
  "rsi_body data window =
     (case rsi_gain data window of
        Inl e \<Rightarrow> Inl e
      | Inr gain \<Rightarrow>
          (case rsi_loss data window of
             Inl e \<Rightarrow> Inl e
           | Inr loss \<Rightarrow>
               (let rs = np_where (map eq0 loss) 0 (map2 fdiv gain loss)
                in Inr (map (\<lambda>r. fsub (Some 100) (fdiv (Some 100) (fadd (Some 1) r))) rs))))"

text \<open>
  \<^verbatim>\<open>calculate_rsi\<close>: the result of the block, or, when the block raised, the error
  dialog and \<^verbatim>\<open>np.zeros(len(data))\<close>.
\<close>

definition calculate_rsi :: "series \<Rightarrow> int \<Rightarrow> series \<times> event list" where
  "calculate_rsi data window =
     (case rsi_body data window of
        Inr r \<Rightarrow> (r, [])
      | Inl e \<Rightarrow> (replicate (length data) (Some 0), [ShowError RSI_Calculation_Error]))"

text \<open>The \<^verbatim>\<open>try\<close> block of \<^verbatim>\<open>calculate_macd\<close> (lines 52 to 56).\<close>

definition macd_body :: "series \<Rightarrow> int \<Rightarrow> int \<Rightarrow> int \<Rightarrow> exn + series" where
  "macd_body data short_window long_window signal_window =
     (case ewm_mean short_window data of
        Inl e \<Rightarrow> Inl e
      | Inr short_ema \<Rightarrow>
          (case ewm_mean long_window data of
             Inl e \<Rightarrow> Inl e
           | Inr long_ema \<Rightarrow>
               (let macd = map2 fsub short_ema long_ema in
                case ewm_mean signal_window macd of
                  Inl e \<Rightarrow> Inl e
                | Inr signal \<Rightarrow> Inr (map2 fsub macd signal))))"

definition calculate_macd :: "series \<Rightarrow> int \<Rightarrow> int \<Rightarrow> int \<Rightarrow> series \<times> event list" where
  "calculate_macd data short_window long_window signal_window =
     (case macd_body data short_window long_window signal_window of
        Inr r \<Rightarrow> (r, [])
      | Inl e \<Rightarrow> (replicate (length data) (Some 0), [ShowError MACD_Calculation_Error]))"

text \<open>
  The oscillator as the specification words it: each moving average is seeded by the
  first value and then mixes the new value, with weight \<open>2 / (span + 1)\<close>, into the
  average before; the MACD line is the short average minus the long one, the signal line
  is the moving average of the MACD line, and the oscillator is their difference.
\<close>

fun spec_ema :: "real \<Rightarrow> real list \<Rightarrow> nat \<Rightarrow> real" where
  "spec_ema a xs 0 = xs ! 0"
| "spec_ema a xs (Suc t) = a * xs ! Suc t + (1 - a) * spec_ema a xs t"

definition spec_ema_series :: "int \<Rightarrow> real list \<Rightarrow> real list" where
  "spec_ema_series spn xs = map (spec_ema (2 / (real_of_int spn + 1)) xs) [0..<length xs]"

definition spec_macd_oscillator :: "int \<Rightarrow> int \<Rightarrow> int \<Rightarrow> real list \<Rightarrow> real list" where
  "spec_macd_oscillator short long signal xs =
     (let macd_line = map2 (-) (spec_ema_series short xs) (spec_ema_series long xs);
          signal_line = spec_ema_series signal macd_line
      in map2 (-) macd_line signal_line)"

section \<open>The pipeline (\<^verbatim>\<open>get_stock_data\<close> and \<^verbatim>\<open>predict_stock_trend\<close>)\<close>

definition LOOKBACK_DAYS :: nat where
  "LOOKBACK_DAYS = 30"

text \<open>
  A row of the frame that \<^verbatim>\<open>yf.download\<close> returns: the columns Close and Volume and
  the other columns, each entry possibly NaN.
\<close>

record raw_row =
  Close :: "real option"
  Volume :: "real option"
  Others :: "real option list"

text \<open>
  The external collaborators of one run: the market data provider, and the two files
  with the classifier (\<^verbatim>\<open>load_model\<close>, then \<^verbatim>\<open>model.predict\<close>) and the scaler
  (\<^verbatim>\<open>joblib.load\<close>, then \<^verbatim>\<open>scaler.transform\<close>). Each call may raise.
\<close>

record env =
  yf_download :: "string \<Rightarrow> exn + raw_row list"
  load_model :: "exn + (real list list list \<Rightarrow> exn + real list list)"
  joblib_load :: "exn + (real list list \<Rightarrow> exn + real list list)"

text \<open>
  \<^verbatim>\<open>get_stock_data\<close> (lines 25 to 35): an exception of the download and an empty frame
  both end in the error dialog and \<^verbatim>\<open>None\<close>; otherwise \<^verbatim>\<open>dropna\<close> removes every
  row with a NaN and the columns Close and Volume are returned.
\<close>

definition clean_row :: "raw_row \<Rightarrow> (real \<times> real) option" where
  "clean_row r =
     (case (Close r, Volume r) of
        (Some c, Some v) \<Rightarrow> if None \<in> set (Others r) then None else Some (c, v)
      | _ \<Rightarrow> None)"

definition get_stock_data :: "env \<Rightarrow> string \<Rightarrow> (real \<times> real) list option \<times> event list" where
  "get_stock_data e ticker =
     (case yf_download e ticker of
        Inl x \<Rightarrow> (None, [YfDownload, ShowError Data_Fetch_Error])
      | Inr raw \<Rightarrow>
          if raw = [] then (None, [YfDownload, ShowError Data_Fetch_Error])
          else (Some (List.map_filter clean_row raw), [YfDownload]))"

text \<open>
  Lines 79 to 81. \<^verbatim>\<open>data['RSI'] = ...\<close> and \<^verbatim>\<open>data['MACD'] = ...\<close> put a column beside
  the others, position by position (an array of another length raises ValueError);
  \<^verbatim>\<open>data.dropna(inplace=True)\<close> keeps, in their order, the rows without NaN.
\<close>

definition set_column_RSI ::
  "(real \<times> real) list \<Rightarrow> series \<Rightarrow> exn + (real \<times> real \<times> real option) list" where
  "set_column_RSI data rsi =
     (if length rsi \<noteq> length data then Inl ValueError
      else Inr (map2 (\<lambda>(c, v) r. (c, v, r)) data rsi))"

definition set_column_MACD ::
  "(real \<times> real \<times> real option) list \<Rightarrow> series
     \<Rightarrow> exn + (real \<times> real \<times> real option \<times> real option) list" where
  "set_column_MACD data macd =
     (if length macd \<noteq> length data then Inl ValueError
      else Inr (map2 (\<lambda>(c, v, r) m. (c, v, r, m)) data macd))"

definition dropna ::
  "(real \<times> real \<times> real option \<times> real option) list \<Rightarrow> (real \<times> real \<times> real \<times> real) list" where
  "dropna rows =
     List.map_filter
       (\<lambda>(c, v, r, m). case (r, m) of (Some r', Some m') \<Rightarrow> Some (c, v, r', m') | _ \<Rightarrow> None)
       rows"

definition assemble_features ::
  "(real \<times> real) list \<Rightarrow> series \<Rightarrow> series \<Rightarrow> exn + (real \<times> real \<times> real \<times> real) list" where
  "assemble_features data rsi macd =
     (case set_column_RSI data rsi of
        Inl x \<Rightarrow> Inl x
      | Inr d1 \<Rightarrow>
          (case set_column_MACD d1 macd of
             Inl x \<Rightarrow> Inl x
           | Inr d2 \<Rightarrow> Inr (dropna d2)))"

text \<open>The \<^verbatim>\<open>try\<close> block of lines 78 to 81, with the calls of the two indicators.\<close>

definition compute_features ::
  "(real \<times> real) list \<Rightarrow> (exn + (real \<times> real \<times> real \<times> real) list) \<times> event list" where
  "compute_features data =
     (let close = map (\<lambda>(c, v). Some c) data;
          (rsi, ev1) = calculate_rsi close 14
      in case set_column_RSI data rsi of
           Inl x \<Rightarrow> (Inl x, ev1)
         | Inr d1 \<Rightarrow>
             (let (macd, ev2) = calculate_macd close 12 26 9
              in case set_column_MACD d1 macd of
                   Inl x \<Rightarrow> (Inl x, ev1 @ ev2)
                 | Inr d2 \<Rightarrow> (Inr (dropna d2), ev1 @ ev2)))"

text \<open>\<^verbatim>\<open>data[['Close', 'Volume', 'RSI', 'MACD']]\<close>, the matrix given to the scaler.\<close>

definition feature_matrix :: "(real \<times> real \<times> real \<times> real) list \<Rightarrow> real list list" where
  "feature_matrix rows = map (\<lambda>(c, v, r, m). [c, v, r, m]) rows"

text \<open>
  Line 107. \<^verbatim>\<open>scaled_data[-LOOKBACK_DAYS:]\<close> is the last 30 rows, or all of them when
  there are fewer; \<^verbatim>\<open>reshape(1, LOOKBACK_DAYS, 4)\<close> lays the entries, row after row, out
  as one block of 30 rows of 4, and raises ValueError when their number is not 120.
\<close>

definition reshape_window :: "real list list \<Rightarrow> exn + real list list list" where
  "reshape_window a =
     (let flat = concat a
      in if length flat \<noteq> 1 * LOOKBACK_DAYS * 4 then Inl ValueError
         else Inr [map (\<lambda>i. take 4 (drop (4 * i) flat)) [0..<LOOKBACK_DAYS]])"

definition extract_window :: "real list list \<Rightarrow> exn + real list list list" where
  "extract_window scaled_data =
     reshape_window (drop (length scaled_data - LOOKBACK_DAYS) scaled_data)"

text \<open>
  Line 107 in its place: it stands in the \<^verbatim>\<open>try\<close> block of lines 105 to 108, whose
  handler (lines 109 to 112) reports every exception as Prediction Error.
\<close>

definition window_stage :: "real list list \<Rightarrow> title + real list list list" where
  "window_stage scaled_data =
     (case extract_window scaled_data of
        Inl x \<Rightarrow> Inl Prediction_Error
      | Inr X_input \<Rightarrow> Inr X_input)"

text \<open>Lines 105 to 112: the scaler, the window, the classifier and the handler.\<close>

definition prediction_block ::
  "(real list list \<Rightarrow> exn + real list list) \<Rightarrow> (real list list list \<Rightarrow> exn + real list list)
     \<Rightarrow> real list list \<Rightarrow> (title + real list) \<times> event list" where
  "prediction_block scaler model table =
     (case scaler table of
        Inl x \<Rightarrow> (Inl Prediction_Error, [ScalerTransform, ShowError Prediction_Error])
      | Inr scaled_data \<Rightarrow>
          (case window_stage scaled_data of
             Inl t \<Rightarrow> (Inl t, [ScalerTransform, ShowError t])
           | Inr X_input \<Rightarrow>
               (case model X_input of
                  Inl x \<Rightarrow>
                    (Inl Prediction_Error,
                     [ScalerTransform, ModelPredict, ShowError Prediction_Error])
                | Inr [] \<Rightarrow>
                    (Inl Prediction_Error,
                     [ScalerTransform, ModelPredict, ShowError Prediction_Error])
                | Inr (prediction # _) \<Rightarrow>
                    (Inr prediction, [ScalerTransform, ModelPredict]))))"

text \<open>
  How a run ends: with a prediction on the label, stopped at one of the checks or
  handlers (named by the title of its message box), stopped because no data came back
  (the label then reads that the retrieval failed), or by an exception that no handler
  catches.
\<close>

datatype outcome = Done trend_prediction | Failed title | No_Data | Uncaught exn

text \<open>
  \<^verbatim>\<open>predict_stock_trend\<close> (lines 61 to 127), from the ticker as read from the entry
  field, upper-cased and stripped. The result is how the run ends and what it did to the
  outside, in order.
\<close>

definition predict_stock_trend :: "env \<Rightarrow> string \<Rightarrow> outcome \<times> event list" where
  "predict_stock_trend e ticker =
     (if ticker = [] then (Failed Input_Error, [ShowWarning Input_Error])
      else case get_stock_data e ticker of
        (None, ev) \<Rightarrow> (No_Data, ev)
      | (Some data, ev) \<Rightarrow>
          if data = [] then (No_Data, ev)
          else case compute_features data of
            (Inl x, ev2) \<Rightarrow> (Failed Indicator_Error, ev @ ev2 @ [ShowError Indicator_Error])
          | (Inr table, ev2) \<Rightarrow>
              if length table < LOOKBACK_DAYS
              then (Failed Insufficient_Data, ev @ ev2 @ [ShowWarning Insufficient_Data])
              else case load_model e of
                Inl x \<Rightarrow>
                  (if x = FileNotFoundError
                   then (Failed File_Error, ev @ ev2 @ [LoadModel, ShowError File_Error])
                   else (Failed Loading_Error, ev @ ev2 @ [LoadModel, ShowError Loading_Error]))
              | Inr model \<Rightarrow>
                  (case joblib_load e of
                     Inl x \<Rightarrow>
                       (if x = FileNotFoundError
                        then (Failed File_Error,
                              ev @ ev2 @ [LoadModel, LoadScaler, ShowError File_Error])
                        else (Failed Loading_Error,
                              ev @ ev2 @ [LoadModel, LoadScaler, ShowError Loading_Error]))
                   | Inr scaler \<Rightarrow>
                       (case prediction_block scaler model (feature_matrix table) of
                          (Inl t, ev3) \<Rightarrow>
                            (Failed t, ev @ ev2 @ [LoadModel, LoadScaler] @ ev3)
                        | (Inr prediction, ev3) \<Rightarrow>
                            (case map_decision prediction of
                               Inl x \<Rightarrow> (Uncaught x, ev @ ev2 @ [LoadModel, LoadScaler] @ ev3)
                             | Inr d \<Rightarrow> (Done d, ev @ ev2 @ [LoadModel, LoadScaler] @ ev3)))))"

section \<open>Auxiliary definitions for the proofs\<close>

text \<open>
  One entry of the result of \<^verbatim>\<open>calculate_rsi\<close>, from the entries of \<^verbatim>\<open>gain\<close> and
  \<^verbatim>\<open>loss\<close> at the same index: lines 43 and 44 at one index.
\<close>

definition rsi_entry :: "real option \<Rightarrow> real option \<Rightarrow> real option" where
  "rsi_entry gain loss =
     fsub (Some 100) (fdiv (Some 100) (fadd (Some 1) (if eq0 loss then Some 0 else fdiv gain loss)))"

text \<open>The moving averages after a seed \<open>w\<close>, as a list.\<close>

fun ema_from :: "real \<Rightarrow> real \<Rightarrow> real list \<Rightarrow> real list" where
  "ema_from a w [] = []"
| "ema_from a w (c # cs) = (a * c + (1 - a) * w) # ema_from a (a * c + (1 - a) * w) cs"

text \<open>
  A series with a warm-up of \<open>w\<close> entries: its entries before index \<open>w\<close> are NaN and
  the others are not.
\<close>

definition warm_up :: "nat \<Rightarrow> series \<Rightarrow> bool" where
  "warm_up w s = (\<forall>i<length s. (s ! i = None) = (i < w))"

section \<open>Properties of the decision\<close>

lemma argmax_loop_spec:
  assumes "bi < i" "i = length pre" "pre ! bi = bv"
    and "list_all (\<lambda>x. x \<le> bv) pre" "list_all (\<lambda>x. x < bv) (take bi pre)"
  shows "first_max_index (pre @ xs) (argmax_loop xs i bi bv)"
  using assms
proof (induction xs arbitrary: i bi bv pre)
  case Nil
  then show ?case by (simp add: first_max_index_def)
next
  case (Cons x xs)
  show ?case
  proof (cases "bv < x")
    case True
    have a: "list_all (\<lambda>y. y \<le> x) (pre @ [x])"
      using Cons.prems(4) True by (auto simp: list_all_iff)
    have b: "list_all (\<lambda>y. y < x) (take i (pre @ [x]))"
      using Cons.prems(2,4) True by (auto simp: list_all_iff)
    have "first_max_index ((pre @ [x]) @ xs) (argmax_loop xs (Suc i) i x)"
      by (rule Cons.IH) (use Cons.prems a b in \<open>simp_all add: nth_append\<close>)
    with True show ?thesis by simp
  next
    case False
    have a: "list_all (\<lambda>y. y \<le> bv) (pre @ [x])"
      using Cons.prems(4) False by (auto simp: list_all_iff)
    have b: "list_all (\<lambda>y. y < bv) (take bi (pre @ [x]))"
      using Cons.prems(1,2,5) by simp
    have "first_max_index ((pre @ [x]) @ xs) (argmax_loop xs (Suc i) bi bv)"
      by (rule Cons.IH) (use Cons.prems a b in \<open>simp_all add: nth_append\<close>)
    with False show ?thesis by simp
  qed
qed

lemma argmax_first_max:
  assumes "argmax xs = Inr k"
  shows "first_max_index xs k"
proof (cases xs)
  case Nil
  with assms show ?thesis by (simp add: argmax_def)
next
  case (Cons x rest)
  have "first_max_index ([x] @ rest) (argmax_loop rest 1 0 x)"
    by (rule argmax_loop_spec) simp_all
  with assms Cons show ?thesis by (simp add: argmax_def)
qed

lemma argmax_nonempty: "xs \<noteq> [] \<Longrightarrow> \<exists>k. argmax xs = Inr k"
  by (cases xs) (simp_all add: argmax_def)

lemma PERCENTAGE_MOVES_nth:
  "k < 11 \<Longrightarrow> PERCENTAGE_MOVES k = Some (label_table ! k)"
proof -
  assume "k < 11"
  then have "k = 0 \<or> k = 1 \<or> k = 2 \<or> k = 3 \<or> k = 4 \<or> k = 5 \<or> k = 6 \<or> k = 7
      \<or> k = 8 \<or> k = 9 \<or> k = 10"
    by arith
  then show ?thesis
    by (elim disjE) (simp_all add: PERCENTAGE_MOVES_def label_table_def)
qed

text \<open>
  Claim C1. For every probability vector of length 11 the decision is made: the class
  is the first index at which the vector takes its greatest value, the confidence is the
  probability at that index times 100, the label is the entry of the fixed table of 11
  labels at that index, and the direction is Neutral for class 0, Up for classes 1 to 5
  and Down for classes 6 to 10.
\<close>

theorem map_decision_length_11:
  assumes "length p = 11"
  shows "\<exists>d. map_decision p = Inr d
           \<and> best_class d < 11
           \<and> first_max_index p (best_class d)
           \<and> confidence d = p ! best_class d * 100
           \<and> percentage_move d = label_table ! best_class d
           \<and> (direction d = Neutral) = (best_class d = 0)
           \<and> (direction d = Up) = (1 \<le> best_class d \<and> best_class d \<le> 5)
           \<and> (direction d = Down) = (6 \<le> best_class d \<and> best_class d \<le> 10)"
proof -
  from assms have "p \<noteq> []" by auto
  then obtain k where k: "argmax p = Inr k"
    using argmax_nonempty by blast
  then have fm: "first_max_index p k"
    by (rule argmax_first_max)
  then have lt: "k < 11"
    using assms by (simp add: first_max_index_def)
  have lab: "PERCENTAGE_MOVES k = Some (label_table ! k)"
    using lt by (rule PERCENTAGE_MOVES_nth)
  show ?thesis
    using k fm lt lab by (auto simp: map_decision_def)
qed

theorem map_decision_length_11_witness:
  "length [0.05, 0.05, 0.05, 0.3, 0.05, 0.05, 0.05, 0.05, 0.3, 0.025, 0.025 :: real] = 11
   \<and> (\<exists>d. map_decision [0.05, 0.05, 0.05, 0.3, 0.05, 0.05, 0.05, 0.05, 0.3, 0.025, 0.025] = Inr d
          \<and> best_class d = 3 \<and> confidence d = 30 \<and> percentage_move d = ''+10%''
          \<and> direction d = Up)"
proof -
  let ?p = "[0.05, 0.05, 0.05, 0.3, 0.05, 0.05, 0.05, 0.05, 0.3, 0.025, 0.025 :: real]"
  have h: "length ?p = 11" by simp
  have v: "argmax ?p = Inr 3" by (simp add: argmax_def)
  from map_decision_length_11 [OF h] obtain d where
    d: "map_decision ?p = Inr d" "confidence d = ?p ! best_class d * 100"
       "percentage_move d = label_table ! best_class d"
       "(direction d = Up) = (1 \<le> best_class d \<and> best_class d \<le> 5)"
    by blast
  from d(1) v have bc: "best_class d = 3"
    by (auto simp: map_decision_def)
  from d bc have "confidence d = 30" "percentage_move d = ''+10%''" "direction d = Up"
    by (simp_all add: label_table_def)
  with h d(1) bc show ?thesis by blast
qed

section \<open>Properties of the RSI\<close>

lemma length_diff: "length (diff xs) = length xs"
  by (cases xs) (simp_all add: diff_def)

lemma rolling_mean_Inr:
  "0 \<le> w \<Longrightarrow> rolling_mean w xs = Inr (map (window_mean (nat w) xs) [0..<length xs])"
  by (simp add: rolling_mean_def)

lemma rolling_mean_Inl: "w < 0 \<Longrightarrow> rolling_mean w xs = Inl ValueError"
  by (simp add: rolling_mean_def)

lemma rsi_body_Inr:
  assumes "0 \<le> window"
  shows "rsi_body data window =
    Inr (map (\<lambda>i. rsi_entry (window_mean (nat window) (series_where gt0 0 (diff data)) i)
                     (fneg (window_mean (nat window) (series_where lt0 0 (diff data)) i)))
          [0..<length data])"
  using assms
  by (simp add: rsi_body_def rsi_gain_def rsi_loss_def rolling_mean_Inr np_where_def
      series_where_def length_diff rsi_entry_def zip_map_map zip_same_conv_map comp_def split_def)

lemma length_map_filter_id:
  "None \<notin> set ys \<Longrightarrow> length (List.map_filter id ys) = length ys"
proof (induction ys)
  case Nil
  show ?case by simp
next
  case (Cons a ys)
  then obtain y where "a = Some y" by (cases a) auto
  with Cons show ?case by simp
qed

lemma set_map_filter_id: "set (List.map_filter id ys) = {x. Some x \<in> set ys}"
  by (induction ys) (auto split: option.splits)

lemma window_obs_length:
  assumes "None \<notin> set xs" "i < length xs"
  shows "length (List.map_filter id (drop (Suc i - w) (take (Suc i) xs))) = min w (Suc i)"
proof -
  have "None \<notin> set (drop (Suc i - w) (take (Suc i) xs))"
    using assms(1) by (meson in_set_dropD in_set_takeD)
  then show ?thesis
    using assms(2) by (simp add: length_map_filter_id)
qed

lemma window_mean_defined:
  assumes "None \<notin> set xs" "i < length xs"
  shows "(window_mean w xs i = None) = (w = 0 \<or> Suc i < w)"
proof -
  let ?obs = "List.map_filter id (drop (Suc i - w) (take (Suc i) xs))"
  have len: "length ?obs = min w (Suc i)"
    using assms by (rule window_obs_length)
  have "(w \<le> length ?obs \<and> 0 < length ?obs) = (\<not> (w = 0 \<or> Suc i < w))"
    unfolding len by auto
  then show ?thesis
    by (simp add: window_mean_def Let_def)
qed

lemma window_mean_sign:
  assumes "window_mean w xs i = Some v"
  shows "(\<forall>x. Some x \<in> set xs \<longrightarrow> 0 \<le> x) \<Longrightarrow> 0 \<le> v"
    and "(\<forall>x. Some x \<in> set xs \<longrightarrow> x \<le> 0) \<Longrightarrow> v \<le> 0"
proof -
  let ?obs = "List.map_filter id (drop (Suc i - w) (take (Suc i) xs))"
  have v: "v = sum_list ?obs / real (length ?obs)" and pos: "0 < length ?obs"
    using assms by (auto simp: window_mean_def Let_def split: if_splits)
  have sub: "\<And>x. x \<in> set ?obs \<Longrightarrow> Some x \<in> set xs"
    by (auto simp: set_map_filter_id dest: in_set_dropD in_set_takeD)
  show "0 \<le> v" if "\<forall>x. Some x \<in> set xs \<longrightarrow> 0 \<le> x"
  proof -
    have "0 \<le> sum_list ?obs"
      by (rule sum_list_nonneg) (use sub that in blast)
    then show ?thesis using v pos by simp
  qed
  show "v \<le> 0" if "\<forall>x. Some x \<in> set xs \<longrightarrow> x \<le> 0"
  proof -
    have "sum_list ?obs \<le> 0"
      by (rule sum_list_nonpos) (use sub that in blast)
    then show ?thesis using v pos by (simp add: divide_nonpos_pos)
  qed
qed

lemma where_gt0_props:
  "None \<notin> set (series_where gt0 0 d)" "Some x \<in> set (series_where gt0 0 d) \<Longrightarrow> 0 \<le> x"
  by (auto simp: series_where_def gt0_def split: option.splits if_splits)

lemma where_lt0_props:
  "None \<notin> set (series_where lt0 0 d)" "Some x \<in> set (series_where lt0 0 d) \<Longrightarrow> x \<le> 0"
  by (auto simp: series_where_def lt0_def split: option.splits if_splits)

lemma rsi_entry_None: "rsi_entry None None = None"
  by (simp add: rsi_entry_def eq0_def fdiv_def fadd_def fsub_def)

lemma rsi_entry_zero_loss: "rsi_entry g (Some 0) = Some 0"
  by (simp add: rsi_entry_def eq0_def fdiv_def fadd_def fsub_def)

lemma rsi_entry_Some:
  assumes "0 \<le> g" "0 \<le> l"
  shows "\<exists>v. rsi_entry (Some g) (Some l) = Some v \<and> 0 \<le> v \<and> v \<le> 100"
proof (cases "l = 0")
  case True
  then show ?thesis by (simp add: rsi_entry_zero_loss)
next
  case False
  with assms have q: "0 \<le> g / l" by simp
  then have nz: "1 + g / l \<noteq> 0" by linarith
  have "100 / (1 + g / l) \<le> 100 / 1"
    by (rule divide_left_mono) (use q in simp_all)
  moreover have "0 \<le> 100 / (1 + g / l)" using q by simp
  ultimately show ?thesis
    using False nz by (simp add: rsi_entry_def eq0_def fdiv_def fadd_def fsub_def)
qed

lemma rsi_entry_bounded:
  "rsi_entry (Some g) (Some l) = Some v \<Longrightarrow> 0 \<le> g \<Longrightarrow> 0 \<le> l \<Longrightarrow> 0 \<le> v \<and> v \<le> 100"
  using rsi_entry_Some [of g l] by auto

lemma calculate_rsi_nth:
  assumes "0 \<le> window"
  shows "calculate_rsi data window =
    (map (\<lambda>i. rsi_entry (window_mean (nat window) (series_where gt0 0 (diff data)) i)
                     (fneg (window_mean (nat window) (series_where lt0 0 (diff data)) i)))
          [0..<length data], [])"
  using assms by (simp add: calculate_rsi_def rsi_body_Inr)

lemma rsi_loss_Inr:
  "0 \<le> window \<Longrightarrow> rsi_loss data window =
     Inr (map (\<lambda>i. fneg (window_mean (nat window) (series_where lt0 0 (diff data)) i))
            [0..<length data])"
  by (simp add: rsi_loss_def rolling_mean_Inr series_where_def length_diff comp_def)

lemma gain_cases:
  assumes "i < length data"
  shows "(Suc i < w \<or> w = 0) \<and> window_mean w (series_where gt0 0 (diff data)) i = None
       \<or> (\<exists>g. 0 \<le> g \<and> window_mean w (series_where gt0 0 (diff data)) i = Some g
              \<and> 0 < w \<and> w \<le> Suc i)"
proof -
  let ?G = "series_where gt0 0 (diff data)"
  have i: "i < length ?G" using assms by (simp add: series_where_def length_diff)
  have d: "(window_mean w ?G i = None) = (w = 0 \<or> Suc i < w)"
    using where_gt0_props(1) i by (rule window_mean_defined)
  show ?thesis
  proof (cases "window_mean w ?G i")
    case None
    with d show ?thesis by auto
  next
    case (Some g)
    then have "0 \<le> g"
      by (rule window_mean_sign(1)) (simp add: where_gt0_props(2))
    with Some d show ?thesis by auto
  qed
qed

lemma loss_cases:
  assumes "i < length data"
  shows "(Suc i < w \<or> w = 0) \<and> fneg (window_mean w (series_where lt0 0 (diff data)) i) = None
       \<or> (\<exists>l. 0 \<le> l \<and> fneg (window_mean w (series_where lt0 0 (diff data)) i) = Some l
              \<and> 0 < w \<and> w \<le> Suc i)"
proof -
  let ?L = "series_where lt0 0 (diff data)"
  have i: "i < length ?L" using assms by (simp add: series_where_def length_diff)
  have d: "(window_mean w ?L i = None) = (w = 0 \<or> Suc i < w)"
    using where_lt0_props(1) i by (rule window_mean_defined)
  show ?thesis
  proof (cases "window_mean w ?L i")
    case None
    with d show ?thesis by (auto simp: fneg_def)
  next
    case (Some m)
    then have "m \<le> 0"
      by (rule window_mean_sign(2)) (simp add: where_lt0_props(2))
    with Some d show ?thesis by (auto simp: fneg_def)
  qed
qed

lemma calculate_rsi_warm_up:
  assumes "0 < window"
  shows "\<exists>r. calculate_rsi data window = (r, []) \<and> length r = length data
            \<and> warm_up (nat window - 1) r"
proof -
  let ?w = "nat window"
  let ?G = "series_where gt0 0 (diff data)" and ?L = "series_where lt0 0 (diff data)"
  let ?r = "map (\<lambda>i. rsi_entry (window_mean ?w ?G i) (fneg (window_mean ?w ?L i)))
              [0..<length data]"
  have run: "calculate_rsi data window = (?r, [])"
    using assms by (simp add: calculate_rsi_nth)
  have "(?r ! i = None) = (i < ?w - 1)" if i: "i < length data" for i
  proof -
    have w: "0 < ?w" using assms by simp
    from gain_cases [OF i, of ?w] loss_cases [OF i, of ?w] w
    consider "Suc i < ?w" "window_mean ?w ?G i = None" "fneg (window_mean ?w ?L i) = None"
      | g l where "?w \<le> Suc i" "window_mean ?w ?G i = Some g" "0 \<le> g"
          "fneg (window_mean ?w ?L i) = Some l" "0 \<le> l"
      by force
    then show ?thesis
    proof cases
      case 1
      then show ?thesis using i by (simp add: rsi_entry_None)
    next
      case 2
      from rsi_entry_Some [OF 2(3) 2(5)] obtain v where "rsi_entry (Some g) (Some l) = Some v"
        by blast
      with 2 show ?thesis using i by simp
    qed
  qed
  with run show ?thesis by (simp add: warm_up_def)
qed

text \<open>
  Claim C7. For every close-price series and every positive window, the series that
  \<^verbatim>\<open>calculate_rsi\<close> returns has the length of the input, its entries before index
  \<open>window - 1\<close> are undefined (NaN) and every entry from index \<open>window - 1\<close> on is
  defined.
\<close>

theorem rsi_warm_up:
  assumes "0 < window"
  shows "\<exists>r. calculate_rsi data window = (r, []) \<and> length r = length data
            \<and> (\<forall>i<length data. (r ! i = None) = (i < nat window - 1))"
proof -
  from calculate_rsi_warm_up [OF assms, of data] obtain r where
    r: "calculate_rsi data window = (r, [])" "length r = length data"
       "warm_up (nat window - 1) r"
    by blast
  from r(2,3) have "\<forall>i<length data. (r ! i = None) = (i < nat window - 1)"
    by (simp add: warm_up_def)
  with r(1,2) show ?thesis by blast
qed

theorem rsi_warm_up_witness:
  "(0::int) < 14
   \<and> (\<exists>r. calculate_rsi (map Some [1,2,1,2,3,4,5,6,7,8,9,10,11,12,13,14,15]) 14 = (r, [])
          \<and> length r = 17 \<and> r ! 12 = None \<and> r ! 13 \<noteq> None)"
proof -
  let ?d = "map Some [1,2,1,2,3,4,5,6,7,8,9,10,11,12,13,14,15::real]"
  have h: "(0::int) < 14" by simp
  from rsi_warm_up [OF h, of ?d] obtain r where
    r: "calculate_rsi ?d 14 = (r, [])" "length r = length ?d"
       "\<forall>i<length ?d. (r ! i = None) = (i < nat 14 - 1)"
    by blast
  from r(3) have "(r ! 12 = None) = (12 < nat 14 - (1::nat))" "(r ! 13 = None) = (13 < nat 14 - (1::nat))"
    by simp_all
  then have "r ! 12 = None" "r ! 13 \<noteq> None" by simp_all
  with r(1,2) h show ?thesis by auto
qed

text \<open>
  Claim C3. For every close-price series, \<^verbatim>\<open>calculate_rsi\<close> with the window of 14 days
  returns a series of the length of the input, every defined entry of it lies between 0
  and 100, and every entry at an index where the trailing average loss is 0 is exactly 0.
  The series with at least 14 changes that the claim speaks of are among them.
\<close>

theorem rsi_range:
  "\<exists>r loss. calculate_rsi data 14 = (r, []) \<and> rsi_loss data 14 = Inr loss
     \<and> length r = length data \<and> length loss = length data
     \<and> (\<forall>i<length data. \<forall>v. r ! i = Some v \<longrightarrow> 0 \<le> v \<and> v \<le> 100)
     \<and> (\<forall>i<length data. loss ! i = Some 0 \<longrightarrow> r ! i = Some 0)"
proof -
  let ?G = "series_where gt0 0 (diff data)" and ?L = "series_where lt0 0 (diff data)"
  let ?r = "map (\<lambda>i. rsi_entry (window_mean 14 ?G i) (fneg (window_mean 14 ?L i)))
              [0..<length data]"
  let ?loss = "map (\<lambda>i. fneg (window_mean 14 ?L i)) [0..<length data]"
  have run: "calculate_rsi data 14 = (?r, [])"
    using calculate_rsi_nth [of 14 data] by simp
  have loss: "rsi_loss data 14 = Inr ?loss"
    using rsi_loss_Inr [of 14 data] by simp
  have range: "0 \<le> v \<and> v \<le> 100" if i: "i < length data" and v: "?r ! i = Some v" for i v
  proof -
    from gain_cases [OF i, of 14] loss_cases [OF i, of 14]
    consider "window_mean 14 ?G i = None" "fneg (window_mean 14 ?L i) = None"
      | g l where "window_mean 14 ?G i = Some g" "0 \<le> g"
          "fneg (window_mean 14 ?L i) = Some l" "0 \<le> l"
      by force
    then show ?thesis
    proof cases
      case 1
      with i v show ?thesis by (simp add: rsi_entry_None)
    next
      case 2
      with i v have "rsi_entry (Some g) (Some l) = Some v" by simp
      then show ?thesis using 2(2) 2(4) by (rule rsi_entry_bounded)
    qed
  qed
  have zero: "?r ! i = Some 0" if "i < length data" "?loss ! i = Some 0" for i
    using that by (simp add: rsi_entry_zero_loss)
  from run loss range zero show ?thesis by simp
qed


theorem rsi_range_witness:
  "\<exists>r loss. calculate_rsi (map Some [1,2,1,2,3,4,5,6,7,8,9,10,11,12,13,14,15]) 14 = (r, [])
     \<and> rsi_loss (map Some [1,2,1,2,3,4,5,6,7,8,9,10,11,12,13,14,15]) 14 = Inr loss
     \<and> length r = 17
     \<and> r ! 13 = Some (1200 / 13) \<and> 0 \<le> (1200 / 13 :: real) \<and> (1200 / 13 :: real) \<le> 100
     \<and> loss ! 16 = Some 0 \<and> r ! 16 = Some 0"
proof -
  let ?d = "map Some [1,2,1,2,3,4,5,6,7,8,9,10,11,12,13,14,15::real]"
  from rsi_range [of ?d] obtain r loss where
    r: "calculate_rsi ?d 14 = (r, [])" "rsi_loss ?d 14 = Inr loss" "length r = length ?d"
       "\<forall>i<length ?d. \<forall>v. r ! i = Some v \<longrightarrow> 0 \<le> v \<and> v \<le> 100"
       "\<forall>i<length ?d. loss ! i = Some 0 \<longrightarrow> r ! i = Some 0"
    by blast
  have "fst (calculate_rsi ?d 14) ! 13 = Some (1200 / 13)"
    by code_simp
  with r(1) have v: "r ! 13 = Some (1200 / 13)" by simp
  have "(case rsi_loss ?d 14 of Inr l \<Rightarrow> l ! 16 | Inl e \<Rightarrow> None) = Some 0"
    by code_simp
  with r(2) have l: "loss ! 16 = Some 0" by simp
  from r(4) v have b: "0 \<le> (1200 / 13 :: real) \<and> (1200 / 13 :: real) \<le> 100" by simp
  from r(5) l have z: "r ! 16 = Some 0" by simp
  from r(1,2,3) v b l z show ?thesis by simp
qed

section \<open>Properties of the MACD oscillator\<close>

lemma ewm_loop_observed:
  "ewm_loop a (map Some cs) (Some w) 1 = map Some (ema_from a w cs)"
proof (induction cs arbitrary: w)
  case Nil
  show ?case by simp
next
  case (Cons c cs)
  have step: "(if w \<noteq> c then ((1 - a) * w + a * c) / (1 - a + a) else w) = a * c + (1 - a) * w"
    by (simp add: algebra_simps)
  show ?case
    by (simp add: Let_def step Cons.IH del: ema_from.simps(2))
       (simp add: algebra_simps)
qed

lemma length_ema_from: "length (ema_from a w cs) = length cs"
  by (induction cs arbitrary: w) simp_all

lemma ema_from_nth:
  "t < length cs \<Longrightarrow>
   ema_from a w cs ! t = a * cs ! t + (1 - a) * ((w # ema_from a w cs) ! t)"
proof (induction cs arbitrary: w t)
  case Nil
  then show ?case by simp
next
  case (Cons c cs)
  show ?case
  proof (cases t)
    case 0
    then show ?thesis by simp
  next
    case (Suc t')
    with Cons.prems have "t' < length cs" by simp
    from Cons.IH [OF this] Suc show ?thesis by simp
  qed
qed

lemma spec_ema_ema_from:
  "t \<le> length rest \<Longrightarrow> spec_ema a (x # rest) t = (x # ema_from a x rest) ! t"
proof (induction t)
  case 0
  show ?case by simp
next
  case (Suc t)
  then have t: "t < length rest" by simp
  with Suc.IH have "spec_ema a (x # rest) t = (x # ema_from a x rest) ! t" by simp
  then show ?case
    using ema_from_nth [OF t, of a x] by simp
qed

lemma spec_ema_series_Cons:
  "spec_ema_series spn (x # rest) = x # ema_from (2 / (real_of_int spn + 1)) x rest"
proof (rule nth_equalityI)
  show "length (spec_ema_series spn (x # rest)) = length (x # ema_from (2 / (real_of_int spn + 1)) x rest)"
    by (simp add: spec_ema_series_def length_ema_from)
next
  fix i assume "i < length (spec_ema_series spn (x # rest))"
  then have i: "i \<le> length rest" by (simp add: spec_ema_series_def)
  then have "i < length [0..<length (x # rest)]" by simp
  then have "spec_ema_series spn (x # rest) ! i = spec_ema (2 / (real_of_int spn + 1)) (x # rest) i"
    unfolding spec_ema_series_def by (simp del: upt_Suc)
  with i show "spec_ema_series spn (x # rest) ! i = (x # ema_from (2 / (real_of_int spn + 1)) x rest) ! i"
    by (simp add: spec_ema_ema_from)
qed

lemma length_spec_ema_series: "length (spec_ema_series spn xs) = length xs"
  by (simp add: spec_ema_series_def)

lemma ewm_mean_observed:
  assumes "1 \<le> spn"
  shows "ewm_mean spn (map Some xs) = Inr (map Some (spec_ema_series spn xs))"
proof -
  have a: "1 / (1 + (real_of_int spn - 1) / 2) = 2 / (real_of_int spn + 1)"
    using assms by (simp add: field_simps)
  show ?thesis
  proof (cases xs)
    case Nil
    with assms show ?thesis by (simp add: ewm_mean_def spec_ema_series_def)
  next
    case (Cons x rest)
    with assms show ?thesis
      by (simp add: ewm_mean_def Let_def a ewm_loop_observed spec_ema_series_Cons)
  qed
qed

lemma ewm_mean_Inl: "spn < 1 \<Longrightarrow> ewm_mean spn xs = Inl ValueError"
  by (simp add: ewm_mean_def)

lemma map2_fsub_Some:
  "map2 fsub (map Some xs) (map Some ys) = map Some (map2 (-) xs ys)"
  by (induction xs ys rule: list_induct2') (simp_all add: fsub_def)

lemma macd_body_observed:
  assumes "1 \<le> short" "1 \<le> long" "1 \<le> signal"
  shows "macd_body (map Some xs) short long signal
       = Inr (map Some (spec_macd_oscillator short long signal xs))"
  by (simp only: macd_body_def spec_macd_oscillator_def Let_def sum.case map2_fsub_Some
      ewm_mean_observed [OF assms(1)] ewm_mean_observed [OF assms(2)]
      ewm_mean_observed [OF assms(3)])

lemma length_spec_macd_oscillator:
  "length (spec_macd_oscillator short long signal xs) = length xs"
  by (simp add: spec_macd_oscillator_def Let_def length_spec_ema_series)

text \<open>
  Claim C6. For every close-price series (of any length, with values of any size and
  sign) and spans of at least 1, \<^verbatim>\<open>calculate_macd\<close> returns, with no error, a series
  of the length of the input that is the oscillator of the specification: the short
  moving average minus the long one, minus the moving average of that difference over the
  signal span, each average seeded by the first value, with weight \<open>2 / (span + 1)\<close> and
  no bias adjustment.
\<close>

theorem macd_oscillator_refines:
  assumes "1 \<le> short" "1 \<le> long" "1 \<le> signal"
  shows "calculate_macd (map Some xs) short long signal
           = (map Some (spec_macd_oscillator short long signal xs), [])
         \<and> length (fst (calculate_macd (map Some xs) short long signal)) = length xs"
  using assms
  by (simp add: calculate_macd_def macd_body_observed length_spec_macd_oscillator)

theorem macd_oscillator_refines_witness:
  "(1::int) \<le> 12 \<and> (1::int) \<le> 26 \<and> (1::int) \<le> 9
   \<and> calculate_macd (map Some [1, 2, 3, 4]) 12 26 9
       = (map Some (spec_macd_oscillator 12 26 9 [1, 2, 3, 4]), [])
   \<and> spec_macd_oscillator 12 26 9 [1, 2, 3, 4]
       = [0, 112 / 1755, 505568 / 3080025, 1522822672 / 5405443875]"
proof -
  have h: "(1::int) \<le> 12" "(1::int) \<le> 26" "(1::int) \<le> 9" by simp_all
  have v: "spec_macd_oscillator 12 26 9 [1, 2, 3, 4]
       = [0, 112 / 1755, 505568 / 3080025, 1522822672 / 5405443875]"
    by code_simp
  from macd_oscillator_refines [OF h, of "[1, 2, 3, 4]"] v h show ?thesis by simp
qed

section \<open>Faults inside the indicators\<close>

lemma rsi_body_length: "rsi_body data window = Inr r \<Longrightarrow> length r = length data"
proof (cases "0 \<le> window")
  case True
  assume "rsi_body data window = Inr r"
  with True show ?thesis by (auto simp: rsi_body_Inr)
next
  case False
  assume "rsi_body data window = Inr r"
  with False show ?thesis by (simp add: rsi_body_def rsi_gain_def rolling_mean_def)
qed

lemma length_ewm_loop: "length (ewm_loop a xs w old_wt) = length xs"
  by (induction a xs w old_wt rule: ewm_loop.induct)
     (simp_all add: Let_def split: option.splits)

lemma ewm_mean_length: "ewm_mean spn xs = Inr r \<Longrightarrow> length r = length xs"
  by (cases xs) (auto simp: ewm_mean_def Let_def length_ewm_loop split: if_splits)

lemma macd_body_length:
  assumes "macd_body data short long signal = Inr r"
  shows "length r = length data"
proof -
  from assms obtain se le sg where
    se: "ewm_mean short data = Inr se" and le: "ewm_mean long data = Inr le"
    and sg: "ewm_mean signal (map2 fsub se le) = Inr sg"
    and r: "r = map2 fsub (map2 fsub se le) sg"
    by (auto simp: macd_body_def Let_def split: sum.splits)
  from se le have "length se = length data" "length le = length data"
    by (simp_all add: ewm_mean_length)
  moreover from sg have "length sg = length (map2 fsub se le)"
    by (rule ewm_mean_length)
  ultimately show ?thesis using r by simp
qed

text \<open>
  Claim C8. Whenever the computation inside \<^verbatim>\<open>calculate_rsi\<close> or \<^verbatim>\<open>calculate_macd\<close>
  raises an exception, the function shows its error dialog and returns a series of
  zeros of the length of the input; in every case the function returns a series of
  that length, so the caller goes on.
\<close>

theorem indicator_fault_zero_fill:
  "(\<forall>e. rsi_body data window = Inl e \<longrightarrow>
      calculate_rsi data window
        = (replicate (length data) (Some 0), [ShowError RSI_Calculation_Error]))
   \<and> (\<forall>e. macd_body data short long signal = Inl e \<longrightarrow>
      calculate_macd data short long signal
        = (replicate (length data) (Some 0), [ShowError MACD_Calculation_Error]))
   \<and> length (fst (calculate_rsi data window)) = length data
   \<and> length (fst (calculate_macd data short long signal)) = length data"
proof -
  have "calculate_rsi data window
        = (replicate (length data) (Some 0), [ShowError RSI_Calculation_Error])"
    if "rsi_body data window = Inl e" for e
    using that by (simp add: calculate_rsi_def)
  moreover have "calculate_macd data short long signal
        = (replicate (length data) (Some 0), [ShowError MACD_Calculation_Error])"
    if "macd_body data short long signal = Inl e" for e
    using that by (simp add: calculate_macd_def)
  moreover have "length (fst (calculate_rsi data window)) = length data"
    by (cases "rsi_body data window") (simp_all add: calculate_rsi_def rsi_body_length)
  moreover have "length (fst (calculate_macd data short long signal)) = length data"
    by (cases "macd_body data short long signal")
       (simp_all add: calculate_macd_def macd_body_length)
  ultimately show ?thesis by blast
qed

theorem indicator_fault_zero_fill_witness:
  "rsi_body (map Some [1, 2, 3, 4]) (- 1) = Inl ValueError
   \<and> calculate_rsi (map Some [1, 2, 3, 4]) (- 1)
       = ([Some 0, Some 0, Some 0, Some 0], [ShowError RSI_Calculation_Error])
   \<and> macd_body (map Some [1, 2, 3, 4]) 0 26 9 = Inl ValueError
   \<and> calculate_macd (map Some [1, 2, 3, 4]) 0 26 9
       = ([Some 0, Some 0, Some 0, Some 0], [ShowError MACD_Calculation_Error])"
proof -
  let ?d = "map Some [1, 2, 3, 4 :: real]"
  have r: "rsi_body ?d (- 1) = Inl ValueError"
    by (simp add: rsi_body_def rsi_gain_def rolling_mean_def)
  have m: "macd_body ?d 0 26 9 = Inl ValueError"
    by (simp add: macd_body_def ewm_mean_def)
  from indicator_fault_zero_fill [of ?d "- 1" 0 26 9] r m
  have "calculate_rsi ?d (- 1)
          = (replicate (length ?d) (Some 0), [ShowError RSI_Calculation_Error])"
       "calculate_macd ?d 0 26 9
          = (replicate (length ?d) (Some 0), [ShowError MACD_Calculation_Error])"
    by blast+
  with r m show ?thesis by (simp add: numeral_eq_Suc)
qed

section \<open>Properties of the feature table\<close>

lemma map_filter_all_None:
  "(\<And>x. x \<in> set xs \<Longrightarrow> h x = None) \<Longrightarrow> List.map_filter h xs = []"
  by (induction xs) simp_all

lemma map_filter_all_Some:
  "(\<And>x. x \<in> set xs \<Longrightarrow> h x = Some (g x)) \<Longrightarrow> List.map_filter h xs = map g xs"
  by (induction xs) simp_all

lemma map_filter_map: "List.map_filter h (map f xs) = List.map_filter (h \<circ> f) xs"
  by (induction xs) (simp_all split: option.splits)

lemma map_filter_append:
  "List.map_filter h (xs @ ys) = List.map_filter h xs @ List.map_filter h ys"
  by (induction xs) (simp_all split: option.splits)

lemma set_columns_rows:
  assumes "length rsi = length data" "length macd = length data"
  shows "assemble_features data rsi macd
    = Inr (dropna (map (\<lambda>i. (fst (data ! i), snd (data ! i), rsi ! i, macd ! i)) [0..<length data]))"
proof -
  have 1: "map2 (\<lambda>(c, v) r. (c, v, r)) data rsi
      = map (\<lambda>i. (fst (data ! i), snd (data ! i), rsi ! i)) [0..<length data]"
    using assms(1) by (intro nth_equalityI) (simp_all add: split_def)
  have 2: "map2 (\<lambda>(c, v, r) m. (c, v, r, m))
             (map (\<lambda>i. (fst (data ! i), snd (data ! i), rsi ! i)) [0..<length data]) macd
      = map (\<lambda>i. (fst (data ! i), snd (data ! i), rsi ! i, macd ! i)) [0..<length data]"
    using assms(2) by (intro nth_equalityI) (simp_all add: split_def)
  show ?thesis
    using assms by (simp only: assemble_features_def set_column_RSI_def set_column_MACD_def 1 2
        length_map length_upt if_False sum.case simp_thms minus_nat.diff_0)
qed

lemma dropna_warm_up:
  assumes len: "length rsi = n" "length macd = n"
    and wr: "warm_up w1 rsi" and wm: "warm_up w2 macd"
  shows "dropna (map (\<lambda>i. (c i, v i, rsi ! i, macd ! i)) [0..<n])
       = map (\<lambda>i. (c i, v i, the (rsi ! i), the (macd ! i))) [max w1 w2..<n]"
proof -
  let ?k = "min (max w1 w2) n"
  let ?h = "(\<lambda>(c, v, r, m). case (r, m) of (Some r', Some m') \<Rightarrow> Some (c, v, r', m')
                 | _ \<Rightarrow> None) \<circ> (\<lambda>i. (c i, v i, rsi ! i, macd ! i))"
  have split: "[0..<n] = [0..<?k] @ [?k..<n]"
    by (metis le_add_diff_inverse min.cobounded2 upt_add_eq_append zero_le)
  have lo: "?h i = None" if "i \<in> set [0..<?k]" for i
  proof -
    from that have i: "i < n" "i < w1 \<or> i < w2" by auto
    then have "rsi ! i = None \<or> macd ! i = None"
      using wr wm len by (auto simp: warm_up_def)
    then show ?thesis by (auto split: option.splits)
  qed
  have hi: "?h i = Some (c i, v i, the (rsi ! i), the (macd ! i))" if "i \<in> set [?k..<n]" for i
  proof -
    from that have i: "i < n" "\<not> i < w1" "\<not> i < w2" by auto
    then have "rsi ! i \<noteq> None" "macd ! i \<noteq> None"
      using wr wm len by (auto simp: warm_up_def)
    then show ?thesis by auto
  qed
  have "dropna (map (\<lambda>i. (c i, v i, rsi ! i, macd ! i)) [0..<n]) = List.map_filter ?h [0..<n]"
    by (simp add: dropna_def map_filter_map)
  also have "\<dots> = List.map_filter ?h [0..<?k] @ List.map_filter ?h [?k..<n]"
    by (subst split) (rule map_filter_append)
  also have "List.map_filter ?h [0..<?k] = []"
    by (rule map_filter_all_None) (rule lo)
  also have "List.map_filter ?h [?k..<n]
      = map (\<lambda>i. (c i, v i, the (rsi ! i), the (macd ! i))) [?k..<n]"
    by (rule map_filter_all_Some) (rule hi)
  also have "[?k..<n] = [max w1 w2..<n]"
    by (cases "max w1 w2 \<le> n") (auto simp: min_def)
  finally show ?thesis by simp
qed

text \<open>
  Claim C4. For a price series of \<open>N\<close> rows, an RSI series of length \<open>N\<close> with a warm-up
  of \<open>w1\<close> entries and a MACD series of length \<open>N\<close> with a warm-up of \<open>w2\<close> entries,
  putting the columns side by side and dropping the rows with an undefined value succeeds
  and leaves exactly \<open>N - max w1 w2\<close> rows (none when a warm-up covers the series): the
  rows from index \<open>max w1 w2\<close> on, in their order.
\<close>

theorem assemble_features_rows:
  assumes "length rsi = length data" "length macd = length data"
    and "warm_up w1 rsi" "warm_up w2 macd"
  shows "\<exists>t. assemble_features data rsi macd = Inr t
           \<and> length t = length data - max w1 w2
           \<and> t = map (\<lambda>i. (fst (data ! i), snd (data ! i), the (rsi ! i), the (macd ! i)))
                   [max w1 w2..<length data]"
  using assms by (simp add: set_columns_rows dropna_warm_up)

theorem assemble_features_rows_witness:
  "assemble_features [(1, 10), (2, 20), (3, 30), (4, 40)]
       [None, None, Some 5, Some 6] [None, Some 7, Some 8, Some 9]
     = Inr [(3, 30, 5, 8), (4, 40, 6, 9)]"
proof -
  let ?data = "[(1, 10), (2, 20), (3, 30), (4, 40)] :: (real \<times> real) list"
  let ?rsi = "[None, None, Some 5, Some 6] :: series"
  let ?macd = "[None, Some 7, Some 8, Some 9] :: series"
  have l: "length ?rsi = length ?data" "length ?macd = length ?data" by simp_all
  have w: "warm_up 2 ?rsi" "warm_up 1 ?macd"
    by (auto simp: warm_up_def nth_Cons' less_Suc_eq numeral_eq_Suc)
  have u: "[max 2 1..<length ?data] = [2, 3]"
    by (simp add: upt_rec)
  from assemble_features_rows [OF l w] obtain t where
    t: "assemble_features ?data ?rsi ?macd = Inr t"
       "t = map (\<lambda>i. (fst (?data ! i), snd (?data ! i), the (?rsi ! i), the (?macd ! i)))
              [max 2 1..<length ?data]"
    by blast
  from t(2) have "t = [(3, 30, 5, 8), (4, 40, 6, 9)]"
    unfolding u by simp
  with t(1) show ?thesis by simp
qed

lemma calculate_macd_observed:
  "calculate_macd (map Some xs) 12 26 9 = (map Some (spec_macd_oscillator 12 26 9 xs), [])"
  by (simp add: calculate_macd_def macd_body_observed)

lemma warm_up_0_Some: "warm_up 0 (map Some xs)"
  by (simp add: warm_up_def)

lemma compute_features_assemble:
  assumes "calculate_rsi (map (\<lambda>(c, v). Some c) data) 14 = (rsi, ev1)"
    and "calculate_macd (map (\<lambda>(c, v). Some c) data) 12 26 9 = (macd, ev2)"
    and "assemble_features data rsi macd = Inr t"
  shows "compute_features data = (Inr t, ev1 @ ev2)"
  using assms
  by (auto simp: compute_features_def assemble_features_def Let_def split: sum.splits)

lemma compute_features_rows:
  "\<exists>rsi macd. calculate_rsi (map (\<lambda>(c, v). Some c) data) 14 = (rsi, [])
     \<and> calculate_macd (map (\<lambda>(c, v). Some c) data) 12 26 9 = (macd, [])
     \<and> length macd = length data \<and> None \<notin> set macd
     \<and> warm_up 13 rsi
     \<and> compute_features data
        = (Inr (map (\<lambda>i. (fst (data ! i), snd (data ! i), the (rsi ! i), the (macd ! i)))
                  [13..<length data]), [])"
proof -
  let ?close = "map (\<lambda>(c, v). Some c) data"
  have close: "?close = map Some (map fst data)"
    by (simp add: split_def comp_def)
  obtain rsi where rsi: "calculate_rsi ?close 14 = (rsi, [])" "length rsi = length data"
      "warm_up 13 rsi"
    using calculate_rsi_warm_up [of 14 ?close] by auto
  let ?macd = "map Some (spec_macd_oscillator 12 26 9 (map fst data))"
  have macd: "calculate_macd ?close 12 26 9 = (?macd, [])"
    unfolding close by (rule calculate_macd_observed)
  have lm: "length ?macd = length data"
    by (simp add: length_spec_macd_oscillator)
  have wm: "warm_up 0 ?macd" by (rule warm_up_0_Some)
  have "assemble_features data rsi ?macd
    = Inr (dropna (map (\<lambda>i. (fst (data ! i), snd (data ! i), rsi ! i, ?macd ! i)) [0..<length data]))"
    using rsi(2) lm by (rule set_columns_rows)
  also have "dropna (map (\<lambda>i. (fst (data ! i), snd (data ! i), rsi ! i, ?macd ! i)) [0..<length data])
    = map (\<lambda>i. (fst (data ! i), snd (data ! i), the (rsi ! i), the (?macd ! i)))
        [max 13 0..<length data]"
    using rsi(2) lm rsi(3) wm by (rule dropna_warm_up)
  finally have "compute_features data
    = (Inr (map (\<lambda>i. (fst (data ! i), snd (data ! i), the (rsi ! i), the (?macd ! i)))
              [max 13 0..<length data]), [] @ [])"
    by (rule compute_features_assemble [OF rsi(1) macd])
  then have "compute_features data
    = (Inr (map (\<lambda>i. (fst (data ! i), snd (data ! i), the (rsi ! i), the (?macd ! i)))
              [13..<length data]), [])"
    by simp
  moreover have "None \<notin> set ?macd" by auto
  ultimately show ?thesis using rsi(1,3) macd lm by blast
qed

text \<open>
  Claim C10, as the code has it. For every close-price series of \<open>N\<close> rows the MACD
  oscillator is defined at every index, the first included, so the rows dropped from
  the feature table are the rows of the RSI warm-up: the feature table is built with no
  error and consists of the rows from index 13 on, which are \<open>N - 13\<close> rows when
  \<open>N\<close> is at least 13 and none otherwise. The warm-up of the RSI is 13 rows, one less
  than the window of 14.
\<close>

theorem macd_no_warm_up_table_rows:
  "\<exists>macd rsi t. calculate_macd (map (\<lambda>(c, v). Some c) data) 12 26 9 = (macd, [])
      \<and> length macd = length data \<and> None \<notin> set macd
      \<and> calculate_rsi (map (\<lambda>(c, v). Some c) data) 14 = (rsi, [])
      \<and> warm_up 13 rsi
      \<and> compute_features data = (Inr t, [])
      \<and> length t = length data - 13
      \<and> map (\<lambda>(c, v, r, m). (c, v)) t = drop 13 data"
proof -
  from compute_features_rows [of data] obtain rsi macd where
    m: "calculate_macd (map (\<lambda>(c, v). Some c) data) 12 26 9 = (macd, [])"
       "length macd = length data" "None \<notin> set macd"
       "calculate_rsi (map (\<lambda>(c, v). Some c) data) 14 = (rsi, [])" "warm_up 13 rsi"
    and t: "compute_features data
        = (Inr (map (\<lambda>i. (fst (data ! i), snd (data ! i), the (rsi ! i), the (macd ! i)))
                  [13..<length data]), [])"
    by blast
  let ?t = "map (\<lambda>i. (fst (data ! i), snd (data ! i), the (rsi ! i), the (macd ! i)))
              [13..<length data]"
  have "map (\<lambda>(c, v, r, m). (c, v)) ?t = drop 13 data"
    by (intro nth_equalityI) (simp_all add: add.commute)
  moreover have "length ?t = length data - 13" by simp
  ultimately show ?thesis using m t by blast
qed

text \<open>
  A series of 14 rows leaves one row, not \<open>14 - 14 = 0\<close>: row 13 has an RSI, computed
  from the 13 changes and the change 0 that stands in for the undefined first one.
\<close>

theorem table_rows_counterexample:
  "length [(1, 100), (2, 100), (3, 100), (4, 100), (5, 100), (6, 100), (7, 100),
           (8, 100), (9, 100), (10, 100), (11, 100), (12, 100), (13, 100),
           (14, 100 :: real) :: real \<times> real] = 14
   \<and> fst (calculate_rsi (map Some [1, 2, 3, 4, 5, 6, 7, 8, 9, 10, 11, 12, 13, 14]) 14) ! 13
       = Some 0
   \<and> \<not> isl (fst (compute_features
         [(1, 100), (2, 100), (3, 100), (4, 100), (5, 100), (6, 100), (7, 100),
          (8, 100), (9, 100), (10, 100), (11, 100), (12, 100), (13, 100), (14, 100)]))
   \<and> length (projr (fst (compute_features
         [(1, 100), (2, 100), (3, 100), (4, 100), (5, 100), (6, 100), (7, 100),
          (8, 100), (9, 100), (10, 100), (11, 100), (12, 100), (13, 100), (14, 100)]))) = 1"
proof -
  let ?d = "[(1, 100), (2, 100), (3, 100), (4, 100), (5, 100), (6, 100), (7, 100),
             (8, 100), (9, 100), (10, 100), (11, 100), (12, 100), (13, 100),
             (14, 100)] :: (real \<times> real) list"
  have r: "fst (calculate_rsi (map Some [1, 2, 3, 4, 5, 6, 7, 8, 9, 10, 11, 12, 13, 14]) 14) ! 13
       = Some 0"
    by code_simp
  from compute_features_rows [of ?d] obtain t where
    t: "compute_features ?d = (Inr t, [])" "length t = length [13..<length ?d]"
    by force
  from t(2) have "length t = 1" by simp
  with t(1) r show ?thesis by simp
qed

theorem macd_no_warm_up_table_rows_witness:
  "\<exists>macd t. calculate_macd (map (\<lambda>(c, v). Some c) ([(1, 100), (2, 100), (3, 100), (4, 100),
          (5, 100), (6, 100), (7, 100), (8, 100), (9, 100), (10, 100), (11, 100), (12, 100),
          (13, 100), (14, 100), (15, 100)] :: (real \<times> real) list)) 12 26 9 = (macd, [])
      \<and> length macd = 15 \<and> None \<notin> set macd
      \<and> compute_features [(1, 100), (2, 100), (3, 100), (4, 100),
          (5, 100), (6, 100), (7, 100), (8, 100), (9, 100), (10, 100), (11, 100), (12, 100),
          (13, 100), (14, 100), (15, 100)] = (Inr t, [])
      \<and> length t = 2
      \<and> map (\<lambda>(c, v, r, m). (c, v)) t = [(14, 100), (15, 100)]"
proof -
  let ?d = "[(1, 100), (2, 100), (3, 100), (4, 100), (5, 100), (6, 100), (7, 100),
             (8, 100), (9, 100), (10, 100), (11, 100), (12, 100), (13, 100), (14, 100),
             (15, 100)] :: (real \<times> real) list"
  have n: "length ?d = 15" by simp
  have dr: "drop 13 ?d = [(14, 100), (15, 100)]" by simp
  from macd_no_warm_up_table_rows [of ?d] obtain macd rsi t where
    "calculate_macd (map (\<lambda>(c, v). Some c) ?d) 12 26 9 = (macd, [])"
    "length macd = length ?d" "None \<notin> set macd"
    "compute_features ?d = (Inr t, [])"
    "length t = length ?d - 13"
    "map (\<lambda>(c, v, r, m). (c, v)) t = drop 13 ?d"
    by blast
  then show ?thesis unfolding n dr by auto
qed

section \<open>Properties of the pipeline\<close>

lemma get_stock_data_Inr:
  "yf_download e ticker = Inr raw \<Longrightarrow> raw \<noteq> [] \<Longrightarrow>
   get_stock_data e ticker = (Some (List.map_filter clean_row raw), [YfDownload])"
  by (simp add: get_stock_data_def)

text \<open>
  Claim C5. When the cleaned price series has only 10 rows, the run ends with the
  Insufficient Data warning, and it has done nothing to the outside but the download and
  that warning: neither the model file nor the scaler file is loaded, and neither the
  scaler nor the classifier is called.
\<close>

theorem ten_rows_insufficient:
  assumes "ticker \<noteq> []" and "yf_download e ticker = Inr raw"
    and "length (List.map_filter clean_row raw) = 10"
  shows "predict_stock_trend e ticker
           = (Failed Insufficient_Data, [YfDownload, ShowWarning Insufficient_Data])
         \<and> LoadModel \<notin> set (snd (predict_stock_trend e ticker))
         \<and> LoadScaler \<notin> set (snd (predict_stock_trend e ticker))
         \<and> ScalerTransform \<notin> set (snd (predict_stock_trend e ticker))
         \<and> ModelPredict \<notin> set (snd (predict_stock_trend e ticker))"
proof -
  let ?data = "List.map_filter clean_row raw"
  from assms(3) have raw: "raw \<noteq> []" by auto
  from assms(3) have ne: "?data \<noteq> []" by auto
  have g: "get_stock_data e ticker = (Some ?data, [YfDownload])"
    using assms(2) raw by (rule get_stock_data_Inr)
  from compute_features_rows [of ?data] obtain t where
    t: "compute_features ?data = (Inr t, [])" "length t = length ?data - 13"
    by force
  from t(2) assms(3) have short: "length t < LOOKBACK_DAYS"
    by (simp add: LOOKBACK_DAYS_def)
  have "predict_stock_trend e ticker
           = (Failed Insufficient_Data, [YfDownload, ShowWarning Insufficient_Data])"
    using assms(1) g ne t(1) short by (simp add: predict_stock_trend_def)
  then show ?thesis by simp
qed

theorem ten_rows_insufficient_witness:
  "predict_stock_trend
     \<lparr> yf_download =
         (\<lambda>t. Inr (map (\<lambda>i. \<lparr> Close = Some (real i), Volume = Some 100, Others = [Some 1] \<rparr>)
                      [0..<10])),
       load_model = Inl FileNotFoundError,
       joblib_load = Inl FileNotFoundError \<rparr>
     ''AAPL''
   = (Failed Insufficient_Data, [YfDownload, ShowWarning Insufficient_Data])"
proof -
  let ?raw = "map (\<lambda>i. \<lparr> Close = Some (real i), Volume = Some 100, Others = [Some 1] \<rparr>) [0..<10]"
  let ?e = "\<lparr> yf_download = (\<lambda>t. Inr ?raw), load_model = Inl FileNotFoundError,
              joblib_load = Inl FileNotFoundError \<rparr>"
  have h1: "''AAPL'' \<noteq> []" by simp
  have h2: "yf_download ?e ''AAPL'' = Inr ?raw" by simp
  have "List.map_filter clean_row ?raw = map (\<lambda>i. (real i, 100)) [0..<10]"
    by (rule map_filter_all_Some [where g = "\<lambda>r. (the (Close r), the (Volume r))",
          THEN trans])
       (auto simp: clean_row_def)
  then have h3: "length (List.map_filter clean_row ?raw) = 10" by simp
  from ten_rows_insufficient [OF h1 h2 h3] show ?thesis by blast
qed

section \<open>Properties of the window\<close>

lemma length_concat_uniform:
  "list_all (\<lambda>r. length r = k) a \<Longrightarrow> length (concat a) = k * length a"
  by (induction a) simp_all

lemma concat_block:
  "list_all (\<lambda>r. length r = k) a \<Longrightarrow> i < length a \<Longrightarrow>
   take k (drop (k * i) (concat a)) = a ! i"
proof (induction a arbitrary: i)
  case Nil
  then show ?case by simp
next
  case (Cons r a)
  show ?case
  proof (cases i)
    case 0
    with Cons.prems show ?thesis by simp
  next
    case (Suc j)
    with Cons.prems have j: "j < length a" and r: "length r = k"
      and a: "list_all (\<lambda>r. length r = k) a" by simp_all
    have "k * Suc j - k = k * j" by simp
    with Cons.IH [OF a j] r Suc show ?thesis by simp
  qed
qed

lemma reshape_window_30:
  assumes "list_all (\<lambda>r. length r = 4) a" "length a = 30"
  shows "reshape_window a = Inr [a]"
proof -
  have len: "length (concat a) = 120"
    using length_concat_uniform [OF assms(1)] assms(2) by simp
  have "map (\<lambda>i. take 4 (drop (4 * i) (concat a))) [0..<30] = a"
    using assms by (intro nth_equalityI) (simp_all add: concat_block del: upt_Suc)
  with len show ?thesis
    by (simp add: reshape_window_def LOOKBACK_DAYS_def Let_def)
qed

lemma reshape_window_short:
  assumes "list_all (\<lambda>r. length r = 4) a" "length a < 30"
  shows "reshape_window a = Inl ValueError"
proof -
  have "length (concat a) = 4 * length a"
    using assms(1) by (rule length_concat_uniform)
  with assms(2) show ?thesis
    by (simp add: reshape_window_def LOOKBACK_DAYS_def Let_def)
qed

text \<open>
  Claim C2, as the code has it. For a scaled table whose rows have 4 entries: with fewer
  than 30 rows the window cannot be formed, the reshape raises, and the stage fails with
  Prediction Error (the code has one check for insufficient data, after the assembly,
  and none here); with 30 rows or more the stage succeeds and the window is one block of
  30 rows of 4 entries, the last 30 rows of the table in their order.
\<close>

theorem window_stage_rows:
  assumes "list_all (\<lambda>r. length r = 4) t"
  shows "(length t < 30 \<longrightarrow> window_stage t = Inl Prediction_Error)
       \<and> (30 \<le> length t \<longrightarrow>
            window_stage t = Inr [drop (length t - 30) t]
            \<and> length (drop (length t - 30) t) = 30
            \<and> list_all (\<lambda>r. length r = 4) (drop (length t - 30) t))"
proof (intro conjI impI)
  assume short: "length t < 30"
  then have "drop (length t - LOOKBACK_DAYS) t = t"
    by (simp add: LOOKBACK_DAYS_def)
  with assms short show "window_stage t = Inl Prediction_Error"
    by (simp add: window_stage_def extract_window_def reshape_window_short)
next
  assume long: "30 \<le> length t"
  let ?w = "drop (length t - 30) t"
  show rows: "list_all (\<lambda>r. length r = 4) ?w"
    using assms by (auto simp: list_all_iff dest: in_set_dropD)
  show len: "length ?w = 30" using long by simp
  from rows len have "reshape_window ?w = Inr [?w]" by (rule reshape_window_30)
  then show "window_stage t = Inr [?w]"
    by (simp add: window_stage_def extract_window_def LOOKBACK_DAYS_def)
qed

text \<open>A table of 29 rows fails with Prediction Error, not with Insufficient Data.\<close>

theorem window_stage_counterexample:
  "window_stage (replicate 29 [0, 0, 0, 0]) = Inl Prediction_Error
   \<and> Prediction_Error \<noteq> Insufficient_Data"
  by code_simp

theorem window_stage_rows_witness:
  "list_all (\<lambda>r. length r = 4) (map (\<lambda>i. [real i, 0, 0, 0]) [0..<31])
   \<and> window_stage (map (\<lambda>i. [real i, 0, 0, 0]) [0..<31])
       = Inr [map (\<lambda>i. [real i, 0, 0, 0]) [1..<31]]
   \<and> list_all (\<lambda>r. length r = 4) (replicate 29 [0, 0, 0, 0 :: real])
   \<and> window_stage (replicate 29 [0, 0, 0, 0]) = Inl Prediction_Error"
proof -
  let ?t = "map (\<lambda>i. [real i, 0, 0, 0]) [0..<31]"
  have h: "list_all (\<lambda>r. length r = 4) ?t" by (simp add: list_all_iff)
  have d: "drop (length ?t - 30) ?t = map (\<lambda>i. [real i, 0, 0, 0]) [1..<31]"
    by (simp add: drop_map del: upt_Suc)
  have h2: "list_all (\<lambda>r. length r = 4) (replicate 29 [0, 0, 0, 0 :: real])"
    by (simp add: list_all_iff)
  from window_stage_rows [OF h] d
  have 1: "window_stage ?t = Inr [map (\<lambda>i. [real i, 0, 0, 0]) [1..<31]]" by simp
  from window_stage_rows [OF h2]
  have 2: "window_stage (replicate 29 [0, 0, 0, 0]) = Inl Prediction_Error" by simp
  from h h2 1 2 show ?thesis by blast
qed

section \<open>The decision on vectors of any length\<close>

text \<open>
  Claim C9, as the code has it. The decision does not look at the length of the vector.
  Every vector that is not empty, of whatever length, gets a prediction whose class is the
  first index of its greatest entry; a class above 10 gets the label Unknown and the
  direction Down. Only the empty vector fails, with the ValueError of \<^verbatim>\<open>np.argmax\<close>.
\<close>

theorem map_decision_no_length_check:
  "(p \<noteq> [] \<longrightarrow>
      (\<exists>d. map_decision p = Inr d \<and> first_max_index p (best_class d)
          \<and> (10 < best_class d \<longrightarrow>
                percentage_move d = ''Unknown'' \<and> direction d = Down)))
   \<and> (p = [] \<longrightarrow> map_decision p = Inl ValueError)"
proof (intro conjI impI)
  assume "p \<noteq> []"
  then obtain k where k: "argmax p = Inr k"
    using argmax_nonempty by blast
  then have fm: "first_max_index p k" by (rule argmax_first_max)
  have "PERCENTAGE_MOVES k = None" if "10 < k"
    using that by (simp add: PERCENTAGE_MOVES_def)
  with k fm show "\<exists>d. map_decision p = Inr d \<and> first_max_index p (best_class d)
          \<and> (10 < best_class d \<longrightarrow> percentage_move d = ''Unknown'' \<and> direction d = Down)"
    by (auto simp: map_decision_def)
next
  assume "p = []"
  then show "map_decision p = Inl ValueError"
    by (simp add: map_decision_def argmax_def)
qed

text \<open>A vector of length 3 gets a prediction.\<close>

theorem map_decision_counterexample:
  "length [0.2, 0.5, 0.3 :: real] \<noteq> 11
   \<and> map_decision [0.2, 0.5, 0.3]
       = Inr \<lparr> best_class = 1, confidence = 50, percentage_move = ''+3%'',
               direction = Up, result_color = ''green'' \<rparr>"
  by (simp add: map_decision_def argmax_def PERCENTAGE_MOVES_def)

theorem map_decision_no_length_check_witness:
  "\<exists>d. map_decision [0, 0, 0, 0, 0, 0, 0, 0, 0, 0, 0, 1] = Inr d
       \<and> best_class d = 11 \<and> percentage_move d = ''Unknown'' \<and> direction d = Down"
proof -
  let ?p = "[0, 0, 0, 0, 0, 0, 0, 0, 0, 0, 0, 1] :: real list"
  have h: "?p \<noteq> []" by simp
  have v: "argmax ?p = Inr 11" by (simp add: argmax_def)
  from map_decision_no_length_check [of ?p] h obtain d where
    d: "map_decision ?p = Inr d"
       "10 < best_class d \<longrightarrow> percentage_move d = ''Unknown'' \<and> direction d = Down"
    by blast
  from d(1) v have "best_class d = 11" by (auto simp: map_decision_def)
  with d show ?thesis by simp
qed

end
